theory Spec2Isabelle
  imports Main "HOL-Library.Multiset"
begin

section \<open>Search screen of the mobile client: data model\<close>

text \<open>
  The search screen (\<^verbatim>\<open>src/unnamed/part_000\<close>) is a React function component. Its
  \<^verbatim>\<open>useState\<close> cells are the fields of one record; every handler is a function from
  the rendered state to the next one. An \<^verbatim>\<open>async\<close> handler is split at its
  \<^verbatim>\<open>await\<close>: the part that runs when the handler is called, and the continuation
  that runs when the awaited promise settles. JavaScript runs each part to completion,
  so overlapping calls interleave exactly at these two points.
\<close>

text \<open>
  Modelled from the spec: the constant \<^verbatim>\<open>FileFilters\<close> of \<^verbatim>\<open>@utils/file\<close> is not
  among the sources. The spec gives the closed set of values of the active filter.
  \<^verbatim>\<open>FileFilters.ALL\<close> is written \<open>FileFilters_ALL\<close>, since \<open>ALL\<close> is a quantifier of HOL.
\<close>

datatype FileFilter =
  FileFilters_ALL | DOCUMENTS | SPREADSHEETS | PRESENTATIONS | CODE | IMAGES | VIDEOS | AUDIO | OTHER

text \<open>The two values of \<^verbatim>\<open>TabTypes\<close> that the sources name.\<close>

datatype TabType = MESSAGES | FILES

text \<open>
  The fields of \<^verbatim>\<open>FileInfo\<close> that the sources read. Each is optional in the source
  (\<^verbatim>\<open>v.id\<close>, written \<open>id'\<close>, is tested, \<^verbatim>\<open>create_at || 0\<close> supplies a default, \<^verbatim>\<open>channel_id!\<close> is
  asserted), so each is an option here. A timestamp is a whole number of milliseconds.
\<close>

record FileInfo =
  id' :: "string option"
  user_id :: "string option"
  channel_id :: "string option"
  create_at :: "int option"
  mime_type :: "string option"

record search_params =
  terms :: string
  is_or_search :: bool

text \<open>
  \<^verbatim>\<open>getSearchParams\<close> (lines 56 to 63). The helper \<^verbatim>\<open>filterFileExtensions\<close> of
  \<^verbatim>\<open>@utils/file\<close> is not among the sources, so it is the parameter \<open>fe\<close>: a function
  from the optional filter (\<open>None\<close> is the omitted argument) to a string. A JavaScript
  string is falsy exactly when it is empty.
\<close>

definition getSearchParams ::
  "(FileFilter option \<Rightarrow> string) \<Rightarrow> string \<Rightarrow> FileFilter option \<Rightarrow> search_params" where
  "getSearchParams fe trms filterValue =
     (let fileExtensions = fe filterValue;
          extensionTerms = (if fileExtensions \<noteq> [] then '' '' @ fileExtensions else [])
      in \<lparr>terms = trms @ extensionTerms, is_or_search = True\<rparr>)"

text \<open>
  Modelled from the spec: \<^verbatim>\<open>filterFileExtensions\<close> is missing from the sources. The spec
  says that ALL maps to no qualifier and that every other filter maps to a fixed,
  non-empty list of extension tokens joined by spaces, and gives \<^verbatim>\<open>ext:pdf ext:doc\<close> as
  its one example of a qualifier. The spec lists no other token, so this instance gives
  that example to every filter but ALL. It is used only to evaluate the general
  theorems at concrete inputs.
\<close>

fun extensions_for :: "FileFilter option \<Rightarrow> string" where
  "extensions_for None = []"
| "extensions_for (Some FileFilters_ALL) = []"
| "extensions_for (Some _) = ''ext:pdf ext:doc''"

section \<open>The search screen's state and its collaborators\<close>

text \<open>
  The collaborators are not among the sources: \<^verbatim>\<open>addSearchToTeamSearchHistory\<close>,
  \<^verbatim>\<open>searchPosts\<close> and \<^verbatim>\<open>searchFiles\<close>. A call to one of them is recorded with its
  arguments (server url, team id, then the term or the search parameters); what the two
  searches answer is an input of the continuation.
\<close>

datatype call =
    AddSearchToTeamSearchHistory string string string
  | SearchPosts string string search_params
  | SearchFiles string string search_params

text \<open>
  What a search resolves to. \<open>None\<close> stands for \<^verbatim>\<open>undefined\<close> or \<^verbatim>\<open>null\<close>: the source
  reads \<^verbatim>\<open>postResults?.order?.length\<close>, \<^verbatim>\<open>files?.length\<close> and \<^verbatim>\<open>channels?.length\<close>,
  so the object of the post search and each of the three arrays may be absent.
\<close>

record post_results =
  order :: "string list option"

record file_results =
  files :: "FileInfo list option"
  channels :: "string list option"

text \<open>A promise settles: it is fulfilled with a value or it is rejected.\<close>

datatype 'a settled = Fulfilled 'a | Rejected

text \<open>
  An \<^verbatim>\<open>async\<close> handler whose awaited promise is rejected, or whose destructuring
  pattern \<^verbatim>\<open>{files, channels}\<close> meets \<^verbatim>\<open>undefined\<close>, throws at the \<^verbatim>\<open>await\<close>: the rest
  of its body does not run.
\<close>

datatype error = PromiseRejected | TypeError

text \<open>
  The state cells of \<^verbatim>\<open>SearchScreen\<close> (lines 77 to 90), in the order of the source.
  \<open>filter'\<close> is the cell \<^verbatim>\<open>filter\<close>. \<open>serverUrl\<close> is the value of \<^verbatim>\<open>useServerUrl()\<close>.
  \<open>headerLocked\<close> records the last of \<^verbatim>\<open>hideAndLock()\<close> and \<^verbatim>\<open>showAndUnlock()\<close>, the
  two calls into the collapsible header. \<open>calls\<close> is the log of the calls made to the
  collaborators, oldest first.
\<close>

record search_screen =
  serverUrl :: string
  cursorPosition :: nat
  searchValue :: string
  searchTeamId :: string
  selectedTab :: TabType
  filter' :: FileFilter
  showResults :: bool
  loading :: bool
  resultsLoading :: bool
  lastSearchedValue :: string
  postIds :: "string list"
  fileInfos :: "FileInfo list"
  fileChannelIds :: "string list"
  headerLocked :: bool
  calls :: "call list"

text \<open>
  The expression \<^verbatim>\<open>xs?.length ? xs : empty\<close> of lines 143 to 145 and 165 to 166: an
  absent array and an array of length 0 both give the empty array.
\<close>

definition orEmpty :: "'a list option \<Rightarrow> 'a list" where
  "orEmpty v = (case v of None \<Rightarrow> [] | Some xs \<Rightarrow> (if length xs \<noteq> 0 then xs else []))"

text \<open>\<^verbatim>\<open>handleCancelAndClearSearch\<close> (lines 107 to 113).\<close>

definition handleCancelAndClearSearch :: "search_screen \<Rightarrow> search_screen" where
  "handleCancelAndClearSearch s =
     s\<lparr>headerLocked := False,
       searchValue := [],
       lastSearchedValue := [],
       filter' := FileFilters_ALL,
       showResults := False\<rparr>"

text \<open>\<^verbatim>\<open>handleTextChange\<close> (lines 115 to 118).\<close>

definition handleTextChange :: "search_screen \<Rightarrow> string \<Rightarrow> search_screen" where
  "handleTextChange s newValue = s\<lparr>searchValue := newValue, cursorPosition := length newValue\<rparr>"

text \<open>
  \<^verbatim>\<open>handleLoading\<close> (lines 120 to 126) is a closure over \<^verbatim>\<open>showResults\<close>: it reads the
  value that the cell had at the render which created it, here its first argument.
\<close>

definition handleLoading :: "bool \<Rightarrow> bool \<Rightarrow> search_screen \<Rightarrow> search_screen" where
  "handleLoading capturedShowResults show s =
     (if capturedShowResults then s\<lparr>resultsLoading := show\<rparr> else s\<lparr>loading := show\<rparr>)"

text \<open>
  A call of \<^verbatim>\<open>handleSearch\<close> that is suspended at its \<^verbatim>\<open>await\<close>. Its continuation uses
  state setters, \<^verbatim>\<open>hideAndLock\<close> and the \<^verbatim>\<open>handleLoading\<close> closure of the call, so all it
  carries is the \<^verbatim>\<open>showResults\<close> that this closure captured.
\<close>

datatype suspended = AwaitSearch bool

text \<open>
  \<^verbatim>\<open>handleSearch\<close>, lines 129 to 141: from the call to the \<^verbatim>\<open>await\<close>. The result is the
  state and, unless the handler returned early, the suspended call. \<^verbatim>\<open>Promise.all\<close>
  receives the promises of both searches, so both are called before the handler
  suspends.
\<close>

definition handleSearch ::
  "(FileFilter option \<Rightarrow> string) \<Rightarrow> search_screen \<Rightarrow> string \<Rightarrow> string
     \<Rightarrow> search_screen \<times> suspended option" where
  "handleSearch fe s newSearchTeamId term =
     (let searchParams = getSearchParams fe term None in
      if terms searchParams = [] then (handleCancelAndClearSearch s, None)
      else
        let s1 = handleLoading (showResults s) True s;
            s2 = s1\<lparr>filter' := FileFilters_ALL\<rparr>;
            s3 = s2\<lparr>lastSearchedValue := term\<rparr>;
            s4 = s3\<lparr>calls := calls s3 @
                   [AddSearchToTeamSearchHistory (serverUrl s) newSearchTeamId term]\<rparr>;
            s5 = s4\<lparr>calls := calls s4 @
                   [SearchPosts (serverUrl s) newSearchTeamId searchParams,
                    SearchFiles (serverUrl s) newSearchTeamId searchParams]\<rparr>
        in (s5, Some (AwaitSearch (showResults s))))"

text \<open>
  \<^verbatim>\<open>handleSearch\<close>, lines 138 to 149: the continuation, run on the state of the moment
  at which \<^verbatim>\<open>Promise.all\<close> settles. \<^verbatim>\<open>Promise.all\<close> is rejected when either promise is.
  On \<open>Inl\<close> no setter has run: the state stays what it was.
\<close>

definition handleSearch_resume ::
  "suspended \<Rightarrow> post_results option settled \<Rightarrow> file_results option settled
     \<Rightarrow> search_screen \<Rightarrow> error + search_screen" where
  "handleSearch_resume k postOutcome fileOutcome s =
     (case k of AwaitSearch capturedShowResults \<Rightarrow>
       (case postOutcome of
          Rejected \<Rightarrow> Inl PromiseRejected
        | Fulfilled postResults \<Rightarrow>
           (case fileOutcome of
              Rejected \<Rightarrow> Inl PromiseRejected
            | Fulfilled None \<Rightarrow> Inl TypeError
            | Fulfilled (Some fileResults) \<Rightarrow>
                (let s1 = s\<lparr>fileInfos := orEmpty (files fileResults)\<rparr>;
                     s2 = s1\<lparr>postIds := orEmpty (Option.bind postResults order)\<rparr>;
                     s3 = s2\<lparr>fileChannelIds := orEmpty (channels fileResults)\<rparr>;
                     s4 = s3\<lparr>showResults := True\<rparr>;
                     s5 = s4\<lparr>headerLocked := True\<rparr>
                 in Inr (handleLoading capturedShowResults False s5)))))"

text \<open>The state after a continuation: the one it built, or the old one if it threw.\<close>

definition settle :: "search_screen \<Rightarrow> error + search_screen \<Rightarrow> search_screen" where
  "settle s r = (case r of Inl _ \<Rightarrow> s | Inr s' \<Rightarrow> s')"

text \<open>\<^verbatim>\<open>onSubmit\<close> (lines 152 to 154) and \<^verbatim>\<open>handleRecentSearch\<close> (lines 156 to 159).\<close>

definition onSubmit ::
  "(FileFilter option \<Rightarrow> string) \<Rightarrow> search_screen \<Rightarrow> search_screen \<times> suspended option" where
  "onSubmit fe s = handleSearch fe s (searchTeamId s) (searchValue s)"

definition handleRecentSearch ::
  "(FileFilter option \<Rightarrow> string) \<Rightarrow> search_screen \<Rightarrow> string
     \<Rightarrow> search_screen \<times> suspended option" where
  "handleRecentSearch fe s text = handleSearch fe (handleTextChange s text) (searchTeamId s) text"

text \<open>
  \<^verbatim>\<open>handleFilterChange\<close> (lines 161 to 167): up to the \<^verbatim>\<open>await\<close>, and the continuation.
  The continuation uses state setters only.
\<close>

definition handleFilterChange ::
  "(FileFilter option \<Rightarrow> string) \<Rightarrow> search_screen \<Rightarrow> FileFilter \<Rightarrow> search_screen" where
  "handleFilterChange fe s filterValue =
     (let s1 = s\<lparr>filter' := filterValue\<rparr>;
          searchParams = getSearchParams fe (lastSearchedValue s) (Some filterValue)
      in s1\<lparr>calls := calls s1 @ [SearchFiles (serverUrl s) (searchTeamId s) searchParams]\<rparr>)"

definition handleFilterChange_resume ::
  "file_results option settled \<Rightarrow> search_screen \<Rightarrow> error + search_screen" where
  "handleFilterChange_resume fileOutcome s =
     (case fileOutcome of
        Rejected \<Rightarrow> Inl PromiseRejected
      | Fulfilled None \<Rightarrow> Inl TypeError
      | Fulfilled (Some fileResults) \<Rightarrow>
          (let s1 = s\<lparr>fileInfos := orEmpty (files fileResults)\<rparr>
           in Inr (s1\<lparr>fileChannelIds := orEmpty (channels fileResults)\<rparr>)))"

text \<open>\<^verbatim>\<open>handleResultsTeamChange\<close> (lines 169 to 172).\<close>

definition handleResultsTeamChange ::
  "(FileFilter option \<Rightarrow> string) \<Rightarrow> search_screen \<Rightarrow> string
     \<Rightarrow> search_screen \<times> suspended option" where
  "handleResultsTeamChange fe s newTeamId =
     handleSearch fe (s\<lparr>searchTeamId := newTeamId\<rparr>) newTeamId (lastSearchedValue s)"

text \<open>
  The state at mount (lines 77 to 90), for a screen of the team \<open>teamId\<close> opened with the
  search term \<open>searchTerm\<close>. The collapsible header is not among the sources; it is
  taken to start unlocked, and no theorem depends on that.
\<close>

definition initial_screen :: "string \<Rightarrow> string \<Rightarrow> string \<Rightarrow> search_screen" where
  "initial_screen url teamId searchTerm =
     \<lparr>serverUrl = url,
      cursorPosition = length searchTerm,
      searchValue = searchTerm,
      searchTeamId = teamId,
      selectedTab = MESSAGES,
      filter' = FileFilters_ALL,
      showResults = False,
      loading = False,
      resultsLoading = False,
      lastSearchedValue = [],
      postIds = [],
      fileInfos = [],
      fileChannelIds = [],
      headerLocked = False,
      calls = []\<rparr>"

section \<open>The file results pane: files for the preview gallery\<close>

text \<open>
  \<^verbatim>\<open>FileResults\<close> (\<^verbatim>\<open>src/unnamed/part_001\<close>, lines 74 to 93). The hook
  \<^verbatim>\<open>useImageAttachments\<close> is not among the sources: the two lists it returns, \<open>images\<close>
  and \<open>nonImages\<close>, are inputs. \<^verbatim>\<open>fileToGalleryItem\<close> is missing as well and is the
  parameter \<open>toItem\<close>.
\<close>

definition filesForGallery :: "FileInfo list \<Rightarrow> FileInfo list \<Rightarrow> FileInfo list" where
  "filesForGallery imageAttachments nonImageAttachments = imageAttachments @ nonImageAttachments"

text \<open>\<^verbatim>\<open>x.create_at || 0\<close>: an absent timestamp counts as 0 (and 0 is 0).\<close>

definition create_at_or_0 :: "FileInfo \<Rightarrow> int" where
  "create_at_or_0 f = (case create_at f of None \<Rightarrow> 0 | Some t \<Rightarrow> (if t \<noteq> 0 then t else 0))"

text \<open>The comparison function of line 79.\<close>

definition compareFiles :: "FileInfo \<Rightarrow> FileInfo \<Rightarrow> int" where
  "compareFiles a b = create_at_or_0 b - create_at_or_0 a"

text \<open>
  \<^verbatim>\<open>Array.prototype.sort\<close> with a comparison function: \<open>a\<close> comes before \<open>b\<close> when the
  function is negative at \<open>(a, b)\<close>, and elements that compare equal keep their order
  (the sort is stable). Insertion from the right is such a sort.
\<close>

fun insert_sorted :: "('a \<Rightarrow> 'a \<Rightarrow> int) \<Rightarrow> 'a \<Rightarrow> 'a list \<Rightarrow> 'a list" where
  "insert_sorted cmp x [] = [x]"
| "insert_sorted cmp x (y # ys) =
     (if cmp x y \<le> 0 then x # y # ys else y # insert_sorted cmp x ys)"

fun array_sort :: "('a \<Rightarrow> 'a \<Rightarrow> int) \<Rightarrow> 'a list \<Rightarrow> 'a list" where
  "array_sort cmp [] = []"
| "array_sort cmp (x # xs) = insert_sorted cmp x (array_sort cmp xs)"

definition orderedFilesForGallery :: "FileInfo list \<Rightarrow> FileInfo list" where
  "orderedFilesForGallery fs = array_sort compareFiles fs"

text \<open>
  \<^verbatim>\<open>filesForGalleryIndexes\<close> (lines 83 to 88): \<^verbatim>\<open>reduce\<close> with the index of each element,
  from an empty object. \<^verbatim>\<open>v.id\<close> is truthy when it is present and not the empty string.
\<close>

fun reduce_indexes :: "(string \<rightharpoonup> nat) \<Rightarrow> nat \<Rightarrow> FileInfo list \<Rightarrow> (string \<rightharpoonup> nat)" where
  "reduce_indexes acc idx [] = acc"
| "reduce_indexes acc idx (v # vs) =
     reduce_indexes
       (case id' v of
          None \<Rightarrow> acc
        | Some k \<Rightarrow> (if k \<noteq> [] then acc(k \<mapsto> idx) else acc))
       (Suc idx) vs"

definition filesForGalleryIndexes :: "FileInfo list \<Rightarrow> (string \<rightharpoonup> nat)" where
  "filesForGalleryIndexes ordered = reduce_indexes Map.empty 0 ordered"

definition galleryIdentifier :: string where
  "galleryIdentifier = ''search-files-location''"

text \<open>
  \<^verbatim>\<open>handlePreviewPress\<close> (lines 90 to 93): the arguments of the one call it makes,
  \<^verbatim>\<open>openGalleryAtIndex(galleryIdentifier, idx, items)\<close>.
\<close>

definition handlePreviewPress ::
  "(FileInfo \<Rightarrow> string option \<Rightarrow> 'item) \<Rightarrow> FileInfo list \<Rightarrow> nat \<Rightarrow> string \<times> nat \<times> 'item list" where
  "handlePreviewPress toItem ordered idx =
     (let items = map (\<lambda>f. toItem f (user_id f)) ordered
      in (galleryIdentifier, idx, items))"

section \<open>Whole operations and concrete inputs\<close>

text \<open>
  \<open>submit\<close> is a call of \<^verbatim>\<open>handleSearch\<close> whose two searches settle before any other
  handler runs: the call, then its continuation on the state the call left. The result
  is \<open>Inl\<close> when the continuation threw.
\<close>

definition submit ::
  "(FileFilter option \<Rightarrow> string) \<Rightarrow> search_screen \<Rightarrow> string \<Rightarrow> string
     \<Rightarrow> post_results option settled \<Rightarrow> file_results option settled
     \<Rightarrow> error + search_screen" where
  "submit fe s teamId term postOutcome fileOutcome =
     (case handleSearch fe s teamId term of
        (s1, None) \<Rightarrow> Inr s1
      | (s1, Some k) \<Rightarrow> handleSearch_resume k postOutcome fileOutcome s1)"

text \<open>
  Two overlapping calls of \<^verbatim>\<open>handleSearch\<close>: the first is called, the second is called
  while the first is suspended, the searches of the second settle, then those of the
  first. \<open>None\<close> when one of the two calls returned early and never searched.
\<close>

definition overlapping_submits ::
  "(FileFilter option \<Rightarrow> string) \<Rightarrow> search_screen
     \<Rightarrow> string \<Rightarrow> string \<Rightarrow> post_results option settled \<Rightarrow> file_results option settled
     \<Rightarrow> string \<Rightarrow> string \<Rightarrow> post_results option settled \<Rightarrow> file_results option settled
     \<Rightarrow> search_screen option" where
  "overlapping_submits fe s team1 term1 post1 file1 team2 term2 post2 file2 =
     (case handleSearch fe s team1 term1 of
        (s1, None) \<Rightarrow> None
      | (s1, Some k1) \<Rightarrow>
         (case handleSearch fe s1 team2 term2 of
            (s2, None) \<Rightarrow> None
          | (s2, Some k2) \<Rightarrow>
              (let s3 = settle s2 (handleSearch_resume k2 post2 file2 s2);
                   s4 = settle s3 (handleSearch_resume k1 post1 file1 s3)
               in Some s4)))"

text \<open>Concrete inputs at which the theorems below are evaluated.\<close>

definition screen0 :: search_screen where
  "screen0 = initial_screen ''https://chat.example'' ''team1'' []"

definition file_of :: "string \<Rightarrow> int option \<Rightarrow> FileInfo" where
  "file_of k t =
     \<lparr>id' = Some k, user_id = Some ''u1'', channel_id = Some ''c1'', create_at = t,
      mime_type = Some ''image/png''\<rparr>"

definition posts_of :: "string list \<Rightarrow> post_results option settled" where
  "posts_of ps = Fulfilled (Some \<lparr>order = Some ps\<rparr>)"

definition files_of :: "FileInfo list \<Rightarrow> string list \<Rightarrow> file_results option settled" where
  "files_of fs cs = Fulfilled (Some \<lparr>files = Some fs, channels = Some cs\<rparr>)"

text \<open>The screen after the search for \<^verbatim>\<open>cat\<close> has committed one post and one file.\<close>

definition screen_cat :: search_screen where
  "screen_cat =
     settle screen0
       (submit extensions_for screen0 ''team1'' ''cat'' (posts_of [''p1''])
          (files_of [file_of ''f1'' (Some 5)] [''c1'']))"

text \<open>The same screen after the filter IMAGES has been chosen and its search has settled.\<close>

definition screen_cat_images :: search_screen where
  "screen_cat_images =
     (let s = handleFilterChange extensions_for screen_cat IMAGES
      in settle s (handleFilterChange_resume (files_of [file_of ''f2'' (Some 7)] [''c1'']) s))"

section \<open>Unfolding the handlers\<close>

lemmas handler_defs = handleSearch_def handleSearch_resume_def handleCancelAndClearSearch_def
  handleLoading_def getSearchParams_def handleFilterChange_def handleFilterChange_resume_def
  handleResultsTeamChange_def submit_def settle_def Let_def

lemmas example_defs = screen0_def initial_screen_def file_of_def posts_of_def files_of_def
  screen_cat_def screen_cat_images_def orEmpty_def

section \<open>Query normalisation\<close>

text \<open>
  C9. For every text, normalising with the filter ALL returns the text itself as the
  terms, with no qualifier appended, and an or-search, provided the missing helper
  maps ALL to the empty qualifier as the spec says it does.
\<close>

theorem getSearchParams_ALL:
  assumes "fe (Some FileFilters_ALL) = []"
  shows "getSearchParams fe text (Some FileFilters_ALL) = \<lparr>terms = text, is_or_search = True\<rparr>"
  using assms by (simp add: getSearchParams_def)

theorem getSearchParams_ALL_witness:
  "extensions_for (Some FileFilters_ALL) = [] \<and>
   getSearchParams extensions_for ''cat'' (Some FileFilters_ALL) = \<lparr>terms = ''cat'', is_or_search = True\<rparr>"
  using getSearchParams_ALL [of extensions_for "''cat''"] by simp

text \<open>
  C7, as amended. For every text and every filter whose qualifier is not empty (every
  filter other than ALL, by the spec), the terms are the text, a space and the
  qualifier. Normalising these terms again with the same filter appends the qualifier a
  second time, so the result differs from the first: normalisation is not idempotent.
\<close>

theorem getSearchParams_filter:
  assumes "fe (Some f) \<noteq> []"
  shows "terms (getSearchParams fe text (Some f)) = text @ '' '' @ fe (Some f) \<and>
         terms (getSearchParams fe (terms (getSearchParams fe text (Some f))) (Some f)) =
           text @ '' '' @ fe (Some f) @ '' '' @ fe (Some f) \<and>
         getSearchParams fe (terms (getSearchParams fe text (Some f))) (Some f) \<noteq>
           getSearchParams fe text (Some f)"
  using assms by (simp add: getSearchParams_def Let_def)

theorem getSearchParams_filter_witness:
  "extensions_for (Some IMAGES) \<noteq> [] \<and>
   terms (getSearchParams extensions_for ''cat'' (Some IMAGES)) = ''cat ext:pdf ext:doc'' \<and>
   terms (getSearchParams extensions_for ''cat ext:pdf ext:doc'' (Some IMAGES)) =
     ''cat ext:pdf ext:doc ext:pdf ext:doc''"
  using getSearchParams_filter [of extensions_for IMAGES "''cat''"]
  by (simp add: getSearchParams_def Let_def)

text \<open>
  C7 as stated fails: the terms of \<^verbatim>\<open>cat\<close> under IMAGES, normalised again under IMAGES,
  are not the terms they were.
\<close>

theorem getSearchParams_not_idempotent:
  "\<not> (terms (getSearchParams extensions_for
          (terms (getSearchParams extensions_for ''cat'' (Some IMAGES))) (Some IMAGES)) =
       terms (getSearchParams extensions_for ''cat'' (Some IMAGES)))"
  by (simp add: getSearchParams_def Let_def)

section \<open>Cancelling\<close>

text \<open>
  C5, as amended. In every state, cancelling empties the query text and the last
  searched value, resets the filter to ALL, stops showing results and unlocks the
  header. It leaves the three stored result arrays as they were.
\<close>

theorem cancel_clears_query_keeps_arrays:
  "searchValue (handleCancelAndClearSearch s) = [] \<and>
   lastSearchedValue (handleCancelAndClearSearch s) = [] \<and>
   filter' (handleCancelAndClearSearch s) = FileFilters_ALL \<and>
   showResults (handleCancelAndClearSearch s) = False \<and>
   headerLocked (handleCancelAndClearSearch s) = False \<and>
   postIds (handleCancelAndClearSearch s) = postIds s \<and>
   fileInfos (handleCancelAndClearSearch s) = fileInfos s \<and>
   fileChannelIds (handleCancelAndClearSearch s) = fileChannelIds s"
  by (simp add: handleCancelAndClearSearch_def)

text \<open>
  C5 as stated fails: after the search for \<^verbatim>\<open>cat\<close> has committed a post and a file,
  cancelling does not leave the three arrays empty.
\<close>

theorem cancel_keeps_result_arrays:
  "\<not> (postIds (handleCancelAndClearSearch screen_cat) = [] \<and>
      fileInfos (handleCancelAndClearSearch screen_cat) = [] \<and>
      fileChannelIds (handleCancelAndClearSearch screen_cat) = [])"
  by (simp add: handler_defs example_defs)

section \<open>Submitting an empty query\<close>

text \<open>
  C6, as amended. When the missing helper gives the empty qualifier for an omitted
  filter, a submit of the empty text ends in the cancelled state, is not suspended, and
  calls none of the three collaborators.
\<close>

theorem empty_submit_cancels:
  assumes "fe None = []"
  shows "handleSearch fe s teamId [] = (handleCancelAndClearSearch s, None) \<and>
         calls (fst (handleSearch fe s teamId [])) = calls s \<and>
         lastSearchedValue (fst (handleSearch fe s teamId [])) = [] \<and>
         filter' (fst (handleSearch fe s teamId [])) = FileFilters_ALL \<and>
         showResults (fst (handleSearch fe s teamId [])) = False"
  using assms by (simp add: handler_defs)

theorem empty_submit_cancels_witness:
  "extensions_for None = [] \<and>
   handleSearch extensions_for screen_cat ''team1'' [] =
     (handleCancelAndClearSearch screen_cat, None) \<and>
   calls (fst (handleSearch extensions_for screen_cat ''team1'' [])) = calls screen_cat"
proof -
  have h: "extensions_for None = []" by simp
  show ?thesis
    using h empty_submit_cancels [of extensions_for screen_cat "''team1''", OF h]
    by (simp add: handleCancelAndClearSearch_def)
qed

text \<open>
  C6 as stated fails for a text of blanks: the guard of line 130 tests the terms for
  emptiness and nothing trims them, so a submit of two blanks is suspended at its
  \<^verbatim>\<open>await\<close> with calls made.
\<close>

theorem whitespace_submit_searches:
  "\<not> (snd (handleSearch extensions_for screen0 ''team1'' ''  '') = None \<and>
      calls (fst (handleSearch extensions_for screen0 ''team1'' ''  '')) = calls screen0)"
  by (simp add: handler_defs example_defs)

text \<open>The calls that this submit makes: the history store, then both searches.\<close>

lemma whitespace_submit_calls:
  "calls (fst (handleSearch extensions_for screen0 ''team1'' ''  '')) =
     [AddSearchToTeamSearchHistory ''https://chat.example'' ''team1'' ''  '',
      SearchPosts ''https://chat.example'' ''team1'' \<lparr>terms = ''  '', is_or_search = True\<rparr>,
      SearchFiles ''https://chat.example'' ''team1'' \<lparr>terms = ''  '', is_or_search = True\<rparr>]"
  by (simp add: handler_defs example_defs)

section \<open>Committing the results of a search\<close>




text \<open>The value of that submit: the handler threw at its \<^verbatim>\<open>await\<close>.\<close>

lemma submit_rejected_file_search_value:
  "submit extensions_for screen0 ''team1'' ''hello'' (posts_of [''p1'']) Rejected = Inl PromiseRejected"
  by (simp add: handler_defs example_defs)

section \<open>Overlapping searches\<close>

text \<open>
  C1, as amended. For every two overlapping submits of non-empty queries whose searches
  are all fulfilled, those of the first after those of the second, the three arrays
  committed at the end are the answers to the first call: the continuation that runs
  last overwrites. The last searched value is the text of the second call.
\<close>

theorem overlapping_submits_last_settled_wins:
  assumes "term1 \<noteq> []" and "term2 \<noteq> []"
  shows "case overlapping_submits fe s team1 term1 (Fulfilled post1) (Fulfilled (Some file1))
                  team2 term2 (Fulfilled post2) (Fulfilled (Some file2)) of
           None \<Rightarrow> False
         | Some s' \<Rightarrow>
             postIds s' = orEmpty (Option.bind post1 order) \<and>
             fileInfos s' = orEmpty (files file1) \<and>
             fileChannelIds s' = orEmpty (channels file1) \<and>
             lastSearchedValue s' = term2"
  using assms by (simp add: overlapping_submits_def handler_defs)

theorem overlapping_submits_last_settled_wins_witness:
  "''first'' \<noteq> [] \<and> ''second'' \<noteq> [] \<and>
   (case overlapping_submits extensions_for screen0
            ''team1'' ''first'' (posts_of [''p1'']) (files_of [] [])
            ''team1'' ''second'' (posts_of [''p2'']) (files_of [] []) of
      None \<Rightarrow> False
    | Some s' \<Rightarrow> postIds s' = [''p1''] \<and> lastSearchedValue s' = ''second'')"
  using overlapping_submits_last_settled_wins [where ?term1.0 = "''first''" and ?term2.0 = "''second''"
      and fe = extensions_for and s = screen0 and ?team1.0 = "''team1''" and ?team2.0 = "''team1''"
      and ?post1.0 = "Some \<lparr>order = Some [''p1'']\<rparr>"
      and ?file1.0 = "\<lparr>files = Some [], channels = Some []\<rparr>"
      and ?post2.0 = "Some \<lparr>order = Some [''p2'']\<rparr>"
      and ?file2.0 = "\<lparr>files = Some [], channels = Some []\<rparr>"]
  by (simp add: posts_of_def files_of_def orEmpty_def split: option.splits)

text \<open>
  C1 as stated fails: the first search answers \<^verbatim>\<open>p1\<close>, the second \<^verbatim>\<open>p2\<close>, the first
  settles last, and the posts committed at the end are not those of the second.
\<close>

theorem stale_response_overwrites:
  "\<not> (case overlapping_submits extensions_for screen0
              ''team1'' ''first'' (posts_of [''p1'']) (files_of [] [])
              ''team1'' ''second'' (posts_of [''p2'']) (files_of [] []) of
        None \<Rightarrow> False
      | Some s' \<Rightarrow> postIds s' = [''p2''])"
  by (simp add: overlapping_submits_def handler_defs example_defs)

section \<open>Changing the team\<close>

text \<open>
  C3, as amended. For every team change with a non-empty last searched value and any
  active filter, the handler stores the new team id, records the last searched value in
  the history store and calls the post search and the file search with the new team id
  and the parameters of the last searched value under no filter, and is suspended. It
  resets the active filter to ALL, as every search does.
\<close>

theorem team_change_searches_and_resets_filter:
  assumes "lastSearchedValue s \<noteq> []"
  shows "snd (handleResultsTeamChange fe s newTeamId) = Some (AwaitSearch (showResults s)) \<and>
         calls (fst (handleResultsTeamChange fe s newTeamId)) =
           calls s @
             [AddSearchToTeamSearchHistory (serverUrl s) newTeamId (lastSearchedValue s),
              SearchPosts (serverUrl s) newTeamId (getSearchParams fe (lastSearchedValue s) None),
              SearchFiles (serverUrl s) newTeamId (getSearchParams fe (lastSearchedValue s) None)] \<and>
         searchTeamId (fst (handleResultsTeamChange fe s newTeamId)) = newTeamId \<and>
         lastSearchedValue (fst (handleResultsTeamChange fe s newTeamId)) = lastSearchedValue s \<and>
         filter' (fst (handleResultsTeamChange fe s newTeamId)) = FileFilters_ALL"
  using assms by (simp add: handleResultsTeamChange_def handleSearch_def handleLoading_def getSearchParams_def Let_def)

theorem team_change_searches_and_resets_filter_witness:
  "lastSearchedValue screen_cat_images \<noteq> [] \<and>
   filter' screen_cat_images = IMAGES \<and>
   filter' (fst (handleResultsTeamChange extensions_for screen_cat_images ''team2'')) = FileFilters_ALL \<and>
   searchTeamId (fst (handleResultsTeamChange extensions_for screen_cat_images ''team2'')) = ''team2''"
proof -
  have h: "lastSearchedValue screen_cat_images \<noteq> []"
    by (simp add: handler_defs example_defs)
  have f: "filter' screen_cat_images = IMAGES"
    by (simp add: handler_defs example_defs)
  show ?thesis
    using h f team_change_searches_and_resets_filter [of screen_cat_images extensions_for "''team2''", OF h]
    by simp
qed

text \<open>
  C3 as stated fails: with the filter IMAGES active, the filter after a team change is
  not the filter before it.
\<close>

theorem team_change_resets_filter:
  "\<not> (filter' (fst (handleResultsTeamChange extensions_for screen_cat_images ''team2'')) =
       filter' screen_cat_images)"
  by (simp add: handler_defs example_defs)

section \<open>Changing the filter\<close>

text \<open>
  C4. For every state and every filter, a filter change makes one call, the file
  search, with the current team id and with terms built from the last searched value
  and the qualifier of the new filter. The live query text plays no part: changing it
  changes nothing but itself. Up to the \<^verbatim>\<open>await\<close> only the filter and the log of calls
  change; the continuation replaces \<open>fileInfos\<close> and \<open>fileChannelIds\<close> and nothing else,
  and \<open>postIds\<close> stays what it was however the search settles.
\<close>

theorem filter_change_frame:
  "calls (handleFilterChange fe s filterValue) =
     calls s @
       [SearchFiles (serverUrl s) (searchTeamId s)
          \<lparr>terms = lastSearchedValue s @
                    (if fe (Some filterValue) \<noteq> [] then '' '' @ fe (Some filterValue) else []),
           is_or_search = True\<rparr>] \<and>
   handleFilterChange fe (s\<lparr>searchValue := liveText\<rparr>) filterValue =
     (handleFilterChange fe s filterValue)\<lparr>searchValue := liveText\<rparr> \<and>
   handleFilterChange fe s filterValue = s\<lparr>filter' := filterValue, calls := calls (handleFilterChange fe s filterValue)\<rparr> \<and>
   handleFilterChange_resume (Fulfilled (Some fileResults)) s' =
     Inr (s'\<lparr>fileInfos := orEmpty (files fileResults),
             fileChannelIds := orEmpty (channels fileResults)\<rparr>) \<and>
   postIds (settle s' (handleFilterChange_resume fileOutcome s')) = postIds s'"
  by (simp add: handler_defs split: settled.splits option.splits)

theorem filter_change_frame_witness:
  "calls (handleFilterChange extensions_for screen_cat IMAGES) =
     calls screen_cat @
       [SearchFiles ''https://chat.example'' ''team1''
          \<lparr>terms = ''cat ext:pdf ext:doc'', is_or_search = True\<rparr>] \<and>
   postIds screen_cat_images = [''p1''] \<and>
   postIds screen_cat = [''p1'']"
proof -
  have a: "lastSearchedValue screen_cat = ''cat''" "serverUrl screen_cat = ''https://chat.example''"
     "searchTeamId screen_cat = ''team1''" "postIds screen_cat = [''p1'']"
    by (simp_all add: handler_defs example_defs)
  have b: "postIds (handleFilterChange extensions_for screen_cat IMAGES) = postIds screen_cat"
    by (simp add: handleFilterChange_def Let_def)
  show ?thesis
    using a b filter_change_frame [where fe = extensions_for and s = screen_cat
        and filterValue = IMAGES and liveText = "''dog''"
        and fileResults = "\<lparr>files = Some [file_of ''f2'' (Some 7)], channels = Some [''c1'']\<rparr>"
        and s' = "handleFilterChange extensions_for screen_cat IMAGES"
        and fileOutcome = "files_of [file_of ''f2'' (Some 7)] [''c1'']"]
    by (simp add: screen_cat_images_def Let_def)
qed

section \<open>The last searched value and the results\<close>




section \<open>The order of the files in the gallery\<close>

lemma set_insert_sorted: "set (insert_sorted cmp x ys) = insert x (set ys)"
  by (induction ys) auto

lemma mset_insert_sorted: "mset (insert_sorted cmp x ys) = add_mset x (mset ys)"
  by (induction ys) auto

lemma mset_array_sort: "mset (array_sort cmp xs) = mset xs"
  by (induction xs) (auto simp: mset_insert_sorted)

lemma newest_first_insert:
  "sorted_wrt (\<lambda>a b. create_at_or_0 b \<le> create_at_or_0 a) ys \<Longrightarrow>
   sorted_wrt (\<lambda>a b. create_at_or_0 b \<le> create_at_or_0 a) (insert_sorted compareFiles x ys)"
  by (induction ys) (auto simp: set_insert_sorted compareFiles_def)

lemma newest_first_array_sort:
  "sorted_wrt (\<lambda>a b. create_at_or_0 b \<le> create_at_or_0 a) (array_sort compareFiles xs)"
  by (induction xs) (auto simp: newest_first_insert)

lemma insert_sorted_insort:
  "insert_sorted compareFiles x ys = insort_key (\<lambda>f. - create_at_or_0 f) x ys"
  by (induction ys) (auto simp: compareFiles_def)

lemma array_sort_sort_key:
  "array_sort compareFiles xs = sort_key (\<lambda>f. - create_at_or_0 f) xs"
  by (induction xs) (auto simp: insert_sorted_insort)

lemma reduce_indexes_miss:
  "(\<forall>v \<in> set vs. id' v \<noteq> Some k) \<Longrightarrow> reduce_indexes acc idx vs k = acc k"
  by (induction vs arbitrary: acc idx) (auto split: option.splits)

lemma reduce_indexes_hit:
  "i < length vs \<Longrightarrow> id' (vs ! i) = Some k \<Longrightarrow> k \<noteq> [] \<Longrightarrow>
   (\<forall>j. i < j \<and> j < length vs \<longrightarrow> id' (vs ! j) \<noteq> Some k) \<Longrightarrow>
   reduce_indexes acc idx vs k = Some (idx + i)"
proof (induction vs arbitrary: acc idx i)
  case Nil
  then show ?case by simp
next
  case (Cons v vs)
  show ?case
  proof (cases i)
    case 0
    have "\<forall>w \<in> set vs. id' w \<noteq> Some k"
    proof
      fix w assume "w \<in> set vs"
      then obtain j where j: "j < length vs" "vs ! j = w"
        by (auto simp: in_set_conv_nth)
      from 0 j(1) have "i < Suc j \<and> Suc j < length (v # vs)" by simp
      with Cons.prems(4) have "id' ((v # vs) ! Suc j) \<noteq> Some k" by blast
      with j(2) show "id' w \<noteq> Some k" by simp
    qed
    with Cons.prems 0 show ?thesis by (simp add: reduce_indexes_miss)
  next
    case (Suc n)
    have later: "\<forall>j. n < j \<and> j < length vs \<longrightarrow> id' (vs ! j) \<noteq> Some k"
    proof (intro allI impI)
      fix j assume "n < j \<and> j < length vs"
      with Suc have "i < Suc j \<and> Suc j < length (v # vs)" by simp
      with Cons.prems(4) have "id' ((v # vs) ! Suc j) \<noteq> Some k" by blast
      then show "id' (vs ! j) \<noteq> Some k" by simp
    qed
    from Cons.prems Suc have "n < length vs" "id' (vs ! n) = Some k" by simp_all
    from Cons.IH [OF this \<open>k \<noteq> []\<close> later] Suc show ?thesis by simp
  qed
qed

lemma reduce_indexes_sound:
  "reduce_indexes acc idx vs k = Some j \<Longrightarrow>
   acc k = Some j \<or> (idx \<le> j \<and> j < idx + length vs \<and> id' (vs ! (j - idx)) = Some k)"
proof (induction vs arbitrary: acc idx)
  case Nil
  then show ?case by simp
next
  case (Cons v vs)
  let ?acc = "case id' v of None \<Rightarrow> acc | Some k \<Rightarrow> if k \<noteq> [] then acc(k \<mapsto> idx) else acc"
  from Cons.prems have "reduce_indexes ?acc (Suc idx) vs k = Some j" by simp
  from Cons.IH [OF this]
  consider "?acc k = Some j" | "Suc idx \<le> j \<and> j < Suc idx + length vs \<and> id' (vs ! (j - Suc idx)) = Some k"
    by blast
  then show ?case
  proof cases
    case 1
    then show ?thesis by (auto split: option.splits if_splits)
  next
    case 2
    then have "(v # vs) ! (j - idx) = vs ! (j - Suc idx)"
      by (metis Suc_diff_le diff_Suc_Suc nth_Cons_Suc)
    with 2 show ?thesis by auto
  qed
qed

text \<open>
  C10. For every pair of lists that the attachments hook returns, the ordered files are
  a rearrangement of them in which no file is older than a file after it, an absent
  creation time counting as 0; the gallery is opened with the items of these files in
  this order; and the index map sends the id of a file to the position of that file,
  the last one if several files share the id (files with no id or an empty id have no
  entry), and has no other entries.
\<close>

theorem gallery_newest_first_with_positions:
  "sorted_wrt (\<lambda>a b. create_at_or_0 b \<le> create_at_or_0 a)
     (orderedFilesForGallery (filesForGallery images nonImages)) \<and>
   mset (orderedFilesForGallery (filesForGallery images nonImages)) = mset images + mset nonImages \<and>
   handlePreviewPress toItem (orderedFilesForGallery (filesForGallery images nonImages)) idx =
     (galleryIdentifier, idx,
      map (\<lambda>f. toItem f (user_id f)) (orderedFilesForGallery (filesForGallery images nonImages))) \<and>
   (\<forall>i k. i < length (orderedFilesForGallery (filesForGallery images nonImages)) \<and>
          id' (orderedFilesForGallery (filesForGallery images nonImages) ! i) = Some k \<and> k \<noteq> [] \<and>
          (\<forall>j. i < j \<and> j < length (orderedFilesForGallery (filesForGallery images nonImages)) \<longrightarrow>
               id' (orderedFilesForGallery (filesForGallery images nonImages) ! j) \<noteq> Some k) \<longrightarrow>
          filesForGalleryIndexes (orderedFilesForGallery (filesForGallery images nonImages)) k = Some i) \<and>
   (\<forall>k j. filesForGalleryIndexes (orderedFilesForGallery (filesForGallery images nonImages)) k = Some j \<longrightarrow>
          j < length (orderedFilesForGallery (filesForGallery images nonImages)) \<and>
          id' (orderedFilesForGallery (filesForGallery images nonImages) ! j) = Some k)"
proof -
  define ordered where "ordered = orderedFilesForGallery (filesForGallery images nonImages)"
  have 1: "sorted_wrt (\<lambda>a b. create_at_or_0 b \<le> create_at_or_0 a) ordered"
    by (simp add: ordered_def orderedFilesForGallery_def newest_first_array_sort)
  have 2: "mset ordered = mset images + mset nonImages"
    by (simp add: ordered_def orderedFilesForGallery_def filesForGallery_def mset_array_sort)
  have 3: "handlePreviewPress toItem ordered idx =
     (galleryIdentifier, idx, map (\<lambda>f. toItem f (user_id f)) ordered)"
    by (simp add: handlePreviewPress_def)
  have 4: "filesForGalleryIndexes ordered k = Some i"
    if "i < length ordered" "id' (ordered ! i) = Some k" "k \<noteq> []"
       "\<forall>j. i < j \<and> j < length ordered \<longrightarrow> id' (ordered ! j) \<noteq> Some k" for i k
    using reduce_indexes_hit [OF that, of Map.empty 0] by (simp add: filesForGalleryIndexes_def)
  have 5: "j < length ordered \<and> id' (ordered ! j) = Some k"
    if "filesForGalleryIndexes ordered k = Some j" for k j
    using reduce_indexes_sound [of Map.empty 0 ordered k j] that
    by (simp add: filesForGalleryIndexes_def)
  from 1 2 3 4 5 show ?thesis unfolding ordered_def by blast
qed

theorem gallery_newest_first_with_positions_witness:
  "orderedFilesForGallery (filesForGallery [file_of ''a'' (Some 5), file_of ''b'' None] [file_of ''c'' (Some 9)]) =
     [file_of ''c'' (Some 9), file_of ''a'' (Some 5), file_of ''b'' None] \<and>
   filesForGalleryIndexes
     (orderedFilesForGallery (filesForGallery [file_of ''a'' (Some 5), file_of ''b'' None] [file_of ''c'' (Some 9)]))
     ''a'' = Some 1"
proof -
  let ?ordered = "orderedFilesForGallery
    (filesForGallery [file_of ''a'' (Some 5), file_of ''b'' None] [file_of ''c'' (Some 9)])"
  have o: "?ordered = [file_of ''c'' (Some 9), file_of ''a'' (Some 5), file_of ''b'' None]"
    by (simp add: orderedFilesForGallery_def filesForGallery_def compareFiles_def
        create_at_or_0_def file_of_def)
  have pre: "1 < length ?ordered \<and> id' (?ordered ! 1) = Some ''a'' \<and> ''a'' \<noteq> [] \<and>
      (\<forall>j. 1 < j \<and> j < length ?ordered \<longrightarrow> id' (?ordered ! j) \<noteq> Some ''a'')"
    unfolding o by (auto simp: file_of_def less_Suc_eq nth_Cons')
  from gallery_newest_first_with_positions
    [of "[file_of ''a'' (Some 5), file_of ''b'' None]" "[file_of ''c'' (Some 9)]"] pre
  have "filesForGalleryIndexes ?ordered ''a'' = Some 1" by blast
  with o show ?thesis by simp
qed

end
